theory Spec2Isabelle
  imports Complex_Main
begin

section \<open>Orchestrator state (services/orchestrator/state.py)\<close>

text \<open>
  The task, phase and execution dictionaries of \<^verbatim>\<open>state.py\<close> become records. Task and
  phase statuses are the two enums of the source; the status of an execution is a plain
  string in the source and stays one here. Timestamps (\<^verbatim>\<open>datetime.utcnow().isoformat()\<close>)
  are clock readings in milliseconds. Costs are Python floats in the source; they are exact
  reals here, so rounding is not represented.
\<close>

datatype TaskStatus =
  PENDING | DECOMPOSING | QUEUED | RUNNING | PAUSED | COMPLETED | FAILED | CANCELLED

datatype PhaseStatus =
  Phase_PENDING | Phase_RUNNING | Phase_COMPLETED | Phase_FAILED | Phase_SKIPPED

type_synonym timestamp = nat

record AgentExecution =
  agent_type :: string
  ex_status :: string
  ex_input :: "(string \<times> string) list"
  ex_output :: "string option"
  ex_error :: "string option"
  model_used :: "string option"
  tokens_input :: int
  tokens_output :: int
  ex_cost :: real
  ex_started_at :: "timestamp option"
  ex_completed_at :: "timestamp option"
  duration_ms :: "int option"

record PhaseState =
  ph_number :: int
  ph_name :: string
  ph_description :: string
  ph_status :: PhaseStatus
  parallel :: bool
  agents :: "string list"
  executions :: "AgentExecution list"
  ph_started_at :: "timestamp option"
  ph_completed_at :: "timestamp option"

text \<open>
  A mode configuration is a dictionary read with \<^verbatim>\<open>.get\<close>; a key that \<^verbatim>\<open>.get\<close> may find
  missing is an optional field.
\<close>

record ModelRef =
  provider :: "string option"
  model :: "string option"

record ModeConfig =
  decompositionDepth :: "string option"
  parallelizationLevel :: "string option"
  validationDepth :: string
  requiresHumanApproval :: bool
  primaryModel :: "ModelRef option"
  fallbackModel :: "ModelRef option"
  requiredAgents :: "string list option"
  optionalAgents :: "string list"
  taskTimeout :: int
  maxRetries :: int
  costLimit :: "real option"

record AgentResult =
  res_output :: string
  res_tokens :: int
  res_cost :: real

record ErrorRecord =
  err_type :: string
  err_phase :: "int option"
  err_message :: string
  err_timestamp :: timestamp

record TaskState =
  task_id :: string
  description :: string
  project_id :: "string option"
  mode :: string
  status :: TaskStatus
  priority :: int
  phases :: "PhaseState list"
  current_phase :: nat
  results :: "string \<rightharpoonup> AgentResult"
  files_modified :: "string list"
  errors :: "ErrorRecord list"
  tokens_used :: int
  estimated_cost :: real
  created_at :: timestamp
  started_at :: "timestamp option"
  completed_at :: "timestamp option"
  mode_config :: ModeConfig

definition create_initial_task_state ::
  "string \<Rightarrow> string \<Rightarrow> string \<Rightarrow> ModeConfig \<Rightarrow> string option \<Rightarrow> int \<Rightarrow> timestamp \<Rightarrow> TaskState"
where
  "create_initial_task_state tid descr m cfg proj prio t =
     \<lparr> task_id = tid, description = descr, project_id = proj, mode = m,
       status = PENDING, priority = prio, phases = [], current_phase = 0,
       results = Map.empty, files_modified = [], errors = [],
       tokens_used = 0, estimated_cost = 0, created_at = t,
       started_at = None, completed_at = None, mode_config = cfg \<rparr>"

definition create_phase_state ::
  "int \<Rightarrow> string \<Rightarrow> string \<Rightarrow> string list \<Rightarrow> bool \<Rightarrow> PhaseState"
where
  "create_phase_state num nm descr ags par =
     \<lparr> ph_number = num, ph_name = nm, ph_description = descr,
       ph_status = Phase_PENDING, parallel = par, agents = ags, executions = [],
       ph_started_at = None, ph_completed_at = None \<rparr>"

definition create_agent_execution :: "string \<Rightarrow> AgentExecution" where
  "create_agent_execution a =
     \<lparr> agent_type = a, ex_status = ''pending'', ex_input = [], ex_output = None,
       ex_error = None, model_used = None, tokens_input = 0, tokens_output = 0,
       ex_cost = 0, ex_started_at = None, ex_completed_at = None, duration_ms = None \<rparr>"

section \<open>Mode registry (MODE_CONFIGS in services/orchestrator/engine.py)\<close>

definition SPEED_config :: ModeConfig where
  "SPEED_config =
     \<lparr> decompositionDepth = Some ''shallow'', parallelizationLevel = Some ''aggressive'',
       validationDepth = ''minimal'', requiresHumanApproval = False,
       primaryModel = Some \<lparr> provider = Some ''claude'', model = Some ''claude-3-5-sonnet-20241022'' \<rparr>,
       fallbackModel = Some \<lparr> provider = Some ''ollama'', model = Some ''codellama:7b'' \<rparr>,
       requiredAgents = Some [''implement''], optionalAgents = [],
       taskTimeout = 300000, maxRetries = 1, costLimit = None \<rparr>"

definition QUALITY_config :: ModeConfig where
  "QUALITY_config =
     \<lparr> decompositionDepth = Some ''deep'', parallelizationLevel = Some ''balanced'',
       validationDepth = ''comprehensive'', requiresHumanApproval = True,
       primaryModel = Some \<lparr> provider = Some ''claude'', model = Some ''claude-opus-4-5-20251101'' \<rparr>,
       fallbackModel = Some \<lparr> provider = Some ''claude'', model = Some ''claude-3-5-sonnet-20241022'' \<rparr>,
       requiredAgents = Some [''concept'', ''architect'', ''implement'', ''test'', ''review'', ''docs''],
       optionalAgents = [''security'', ''optimize''],
       taskTimeout = 900000, maxRetries = 3, costLimit = None \<rparr>"

definition AUTONOMY_config :: ModeConfig where
  "AUTONOMY_config =
     \<lparr> decompositionDepth = Some ''deep'', parallelizationLevel = Some ''balanced'',
       validationDepth = ''standard'', requiresHumanApproval = False,
       primaryModel = Some \<lparr> provider = Some ''claude'', model = Some ''claude-opus-4-5-20251101'' \<rparr>,
       fallbackModel = Some \<lparr> provider = Some ''claude'', model = Some ''claude-3-5-sonnet-20241022'' \<rparr>,
       requiredAgents =
         Some [''concept'', ''architect'', ''implement'', ''test'', ''review'', ''docs'', ''deploy''],
       optionalAgents = [''security'', ''optimize''],
       taskTimeout = 1200000, maxRetries = 3, costLimit = None \<rparr>"

definition COST_config :: ModeConfig where
  "COST_config =
     \<lparr> decompositionDepth = Some ''shallow'', parallelizationLevel = Some ''conservative'',
       validationDepth = ''minimal'', requiresHumanApproval = False,
       primaryModel = Some \<lparr> provider = Some ''ollama'', model = Some ''codellama:7b'' \<rparr>,
       fallbackModel = Some \<lparr> provider = Some ''claude'', model = Some ''claude-3-5-haiku-20241022'' \<rparr>,
       requiredAgents = Some [''implement'', ''test''], optionalAgents = [],
       taskTimeout = 600000, maxRetries = 2, costLimit = Some 1 \<rparr>"

definition MODE_CONFIGS :: "string \<rightharpoonup> ModeConfig" where
  "MODE_CONFIGS m =
     (if m = ''SPEED'' then Some SPEED_config
      else if m = ''QUALITY'' then Some QUALITY_config
      else if m = ''AUTONOMY'' then Some AUTONOMY_config
      else if m = ''COST'' then Some COST_config
      else None)"

section \<open>Clock and event bus\<close>

text \<open>
  What the engine does to the outside is kept in a world value: the clock, the number of
  provider calls made so far, and the log of emitted events. Reading the clock returns
  the current reading and advances it by one. An event is logged with its name, the task
  id and, for phase and agent events, the phase number and the agent kind; the payload's
  reference to the mutable state is not logged. \<^verbatim>\<open>_emit_event\<close> logs and swallows what a
  handler raises, and the connection manager catches failed deliveries, so emitting
  never raises.
\<close>

datatype Event =
  TaskEv string string
| PhaseEv string string int
| AgentEv string string int string

record World =
  now :: timestamp
  calls :: nat
  emitted :: "Event list"

definition utcnow :: "World \<Rightarrow> timestamp \<times> World" where
  "utcnow w = (now w, w\<lparr> now := now w + 1 \<rparr>)"

definition emit_event :: "World \<Rightarrow> Event \<Rightarrow> World" where
  "emit_event w ev = w\<lparr> emitted := emitted w @ [ev] \<rparr>"

section \<open>Decomposer (OrchestratorEngine._decompose_task)\<close>

definition phase_groups :: "(string list \<times> string \<times> string) list" where
  "phase_groups =
     [ ([''concept''], ''Concept'', ''Analyze requirements''),
       ([''architect''], ''Architecture'', ''Design system architecture''),
       ([''implement''], ''Implementation'', ''Generate code''),
       ([''test''], ''Testing'', ''Create and run tests''),
       ([''review'', ''security''], ''Review'', ''Code review and security audit''),
       ([''optimize''], ''Optimization'', ''Performance optimization''),
       ([''docs''], ''Documentation'', ''Generate documentation''),
       ([''deploy''], ''Deployment'', ''Deploy changes'') ]"

text \<open>The loop over \<^verbatim>\<open>phase_groups\<close>, carrying \<^verbatim>\<open>phase_num\<close> and the list built so far.\<close>

fun decompose_loop ::
  "string list \<Rightarrow> (string list \<times> string \<times> string) list \<Rightarrow> int \<Rightarrow> PhaseState list \<Rightarrow> PhaseState list"
where
  "decompose_loop required [] phase_num acc = acc"
| "decompose_loop required ((grp, nm, descr) # rest) phase_num acc =
     (let phase_agents = filter (\<lambda>a. a \<in> set required) grp
      in if phase_agents \<noteq> []
         then decompose_loop required rest (phase_num + 1)
                (acc @ [create_phase_state phase_num nm descr phase_agents
                          (length phase_agents > 1)])
         else decompose_loop required rest phase_num acc)"

definition decompose_task :: "TaskState \<Rightarrow> TaskState" where
  "decompose_task st =
     (let cfg = mode_config st;
          required_agents = (case requiredAgents cfg of Some r \<Rightarrow> r | None \<Rightarrow> [''implement'']);
          phs = (if decompositionDepth cfg = Some ''shallow''
                 then [create_phase_state 1 ''Execution'' ''Execute all agents'' required_agents
                         (parallelizationLevel cfg = Some ''aggressive'')]
                 else decompose_loop required_agents phase_groups 1 [])
      in st\<lparr> phases := phs \<rparr>)"

section \<open>Engine facade (submit_task, cancel_task)\<close>

text \<open>
  The engine object: the default mode, the task map, the queue of task ids and the ids of
  the running workers. \<^verbatim>\<open>submit_task\<close> ends by scheduling \<^verbatim>\<open>_process_queue\<close>, which
  starts \<^verbatim>\<open>_execute_task\<close> as a worker for the pending task at the head of the queue;
  scheduling is not represented, and the executor is applied to a task directly.
\<close>

record Engine =
  current_mode :: string
  active_tasks :: "string \<rightharpoonup> TaskState"
  task_queue :: "string list"
  workers :: "string set"
  max_workers :: nat
  running :: bool

datatype error = KeyError string | ValueError string

text \<open>
  \<^verbatim>\<open>self._task_queue.sort(key=lambda tid: self._active_tasks[tid]["priority"], reverse=True)\<close>:
  a stable sort by descending priority; the key function raises KeyError on an id that
  has no state.
\<close>

definition sort_queue :: "(string \<rightharpoonup> TaskState) \<Rightarrow> string list \<Rightarrow> error + string list" where
  "sort_queue active q =
     (case find (\<lambda>tid. active tid = None) q of
        Some tid \<Rightarrow> Inl (KeyError tid)
      | None \<Rightarrow>
          Inr (sort_key (\<lambda>tid. case active tid of Some s \<Rightarrow> - priority s | None \<Rightarrow> 0) q))"

text \<open>\<^verbatim>\<open>mode or self._current_mode\<close>: an absent or empty mode argument is the default mode.\<close>

definition mode_or_current :: "Engine \<Rightarrow> string option \<Rightarrow> string" where
  "mode_or_current e mode_arg =
     (case mode_arg of None \<Rightarrow> current_mode e
      | Some x \<Rightarrow> if x = [] then current_mode e else x)"

text \<open>\<^verbatim>\<open>MODE_CONFIGS.get(mode, MODE_CONFIGS["QUALITY"])\<close>.\<close>

definition config_or_quality :: "string \<Rightarrow> ModeConfig" where
  "config_or_quality m = (case MODE_CONFIGS m of Some c \<Rightarrow> c | None \<Rightarrow> QUALITY_config)"

definition submit_task ::
  "World \<Rightarrow> Engine \<Rightarrow> string \<Rightarrow> string \<Rightarrow> string option \<Rightarrow> string option \<Rightarrow> int
     \<Rightarrow> error + (World \<times> Engine \<times> TaskState)"
where
  "submit_task w e tid descr mode_arg proj prio =
     (let m = mode_or_current e mode_arg;
          cfg = config_or_quality m;
          (t, w1) = utcnow w;
          state = create_initial_task_state tid descr m cfg proj prio t;
          active = (active_tasks e)(tid \<mapsto> state)
      in case sort_queue active (task_queue e @ [tid]) of
           Inl err \<Rightarrow> Inl err
         | Inr q \<Rightarrow>
             Inr (emit_event w1 (TaskEv ''task_submitted'' tid),
                  e\<lparr> active_tasks := active, task_queue := q \<rparr>,
                  state))"

text \<open>
  \<^verbatim>\<open>switch_mode\<close> is the one operation of the engine that checks the registry.
\<close>

definition switch_mode :: "Engine \<Rightarrow> string \<Rightarrow> error + Engine" where
  "switch_mode e new_mode =
     (if MODE_CONFIGS new_mode = None then Inl (ValueError (''Unknown mode: '' @ new_mode))
      else Inr (e\<lparr> current_mode := new_mode \<rparr>))"

text \<open>
  \<^verbatim>\<open>cancel_task\<close>. Cancelling and awaiting a live worker is concurrency between the
  canceller and the executor; here the worker's id is only dropped from the worker set.
\<close>

definition cancel_task :: "World \<Rightarrow> Engine \<Rightarrow> string \<Rightarrow> World \<times> Engine \<times> bool" where
  "cancel_task w e tid =
     (case active_tasks e tid of
        None \<Rightarrow> (w, e, False)
      | Some state \<Rightarrow>
          if status state = COMPLETED \<or> status state = FAILED then (w, e, False)
          else
            (let ws = workers e - {tid};
                 (t, w1) = utcnow w;
                 state' = state\<lparr> status := CANCELLED, completed_at := Some t \<rparr>;
                 q = remove1 tid (task_queue e);
                 w2 = emit_event w1 (TaskEv ''task_cancelled'' tid)
             in (w2,
                 e\<lparr> active_tasks := (active_tasks e)(tid \<mapsto> state'), task_queue := q,
                    workers := ws \<rparr>,
                 True)))"

section \<open>Provider adapters\<close>

text \<open>
  What a provider's \<^verbatim>\<open>generate\<close> returns is a dictionary that the engine reads with
  \<^verbatim>\<open>.get\<close> and a default. A provider is outside the engine: it is a parameter here,
  giving for the n-th call made by the engine and the model name either the message of
  the exception it raises or its result. The prompt is a function of the task's
  description, the agent kind and the results so far, its construction raises nothing,
  and the outcome of the n-th call is arbitrary, so the prompt text is not passed on.
\<close>

record GenResult =
  gen_content :: "string option"
  gen_model :: "string option"
  gen_tokens_input :: "int option"
  gen_tokens_output :: "int option"
  gen_cost :: "real option"

record Providers =
  claude_generate :: "nat \<Rightarrow> string option \<Rightarrow> string + GenResult"
  ollama_generate :: "nat \<Rightarrow> string option \<Rightarrow> string + GenResult"

definition call_provider :: "Providers \<Rightarrow> World \<Rightarrow> TaskState \<Rightarrow> (string + GenResult) \<times> World" where
  "call_provider pv w st =
     (let primary_model = primaryModel (mode_config st);
          prov = (case primary_model of
                    None \<Rightarrow> ''claude''
                  | Some pm \<Rightarrow> (case provider pm of None \<Rightarrow> ''claude'' | Some p \<Rightarrow> p));
          mdl = (case primary_model of None \<Rightarrow> None | Some pm \<Rightarrow> model pm);
          n = calls w
      in (if prov = ''claude'' then claude_generate pv n mdl else ollama_generate pv n mdl,
          w\<lparr> calls := n + 1 \<rparr>))"

section \<open>Agent runner (OrchestratorEngine._execute_agent)\<close>

text \<open>
  The source passes the phase and the execution as references into the task state and
  mutates them in place. Here a phase is addressed by its index in the task's phase list
  and an execution by its index in the phase's execution list.
\<close>

definition upd_phase :: "nat \<Rightarrow> (PhaseState \<Rightarrow> PhaseState) \<Rightarrow> TaskState \<Rightarrow> TaskState" where
  "upd_phase i f st = st\<lparr> phases := (phases st)[i := f (phases st ! i)] \<rparr>"

definition upd_execution ::
  "nat \<Rightarrow> nat \<Rightarrow> (AgentExecution \<Rightarrow> AgentExecution) \<Rightarrow> TaskState \<Rightarrow> TaskState"
where
  "upd_execution i j f st =
     upd_phase i (\<lambda>p. p\<lparr> executions := (executions p)[j := f (executions p ! j)] \<rparr>) st"

text \<open>Creating the execution record, marking it running and appending it to the phase.\<close>

definition agent_begin :: "timestamp \<Rightarrow> string \<Rightarrow> nat \<Rightarrow> TaskState \<Rightarrow> TaskState" where
  "agent_begin t a i st =
     upd_phase i (\<lambda>p. p\<lparr> executions := executions p @
        [(create_agent_execution a)\<lparr> ex_started_at := Some t, ex_status := ''running'' \<rparr>] \<rparr>) st"

text \<open>The body of the \<^verbatim>\<open>try\<close> after the provider has returned.\<close>

definition agent_success :: "GenResult \<Rightarrow> string \<Rightarrow> nat \<Rightarrow> nat \<Rightarrow> TaskState \<Rightarrow> TaskState" where
  "agent_success r a i j st =
     (let content = (case gen_content r of Some c \<Rightarrow> c | None \<Rightarrow> []);
          tin = (case gen_tokens_input r of Some n \<Rightarrow> n | None \<Rightarrow> 0);
          tout = (case gen_tokens_output r of Some n \<Rightarrow> n | None \<Rightarrow> 0);
          c = (case gen_cost r of Some x \<Rightarrow> x | None \<Rightarrow> 0);
          st1 = upd_execution i j (\<lambda>x. x\<lparr> ex_status := ''completed'',
                  ex_output := Some content, model_used := gen_model r,
                  tokens_input := tin, tokens_output := tout, ex_cost := c \<rparr>) st
      in st1\<lparr> tokens_used := tokens_used st1 + (tin + tout),
              estimated_cost := estimated_cost st1 + c,
              results := (results st1)(a \<mapsto>
                 \<lparr> res_output = content, res_tokens = tin + tout, res_cost = c \<rparr>) \<rparr>)"

text \<open>The \<^verbatim>\<open>except\<close> branch.\<close>

definition agent_failure :: "string \<Rightarrow> nat \<Rightarrow> nat \<Rightarrow> TaskState \<Rightarrow> TaskState" where
  "agent_failure msg i j st =
     upd_execution i j (\<lambda>x. x\<lparr> ex_status := ''failed'', ex_error := Some msg \<rparr>) st"

text \<open>The \<^verbatim>\<open>finally\<close> branch.\<close>

definition agent_finally :: "timestamp \<Rightarrow> nat \<Rightarrow> nat \<Rightarrow> TaskState \<Rightarrow> TaskState" where
  "agent_finally t i j st =
     upd_execution i j (\<lambda>x. x\<lparr> ex_completed_at := Some t,
        duration_ms := (case ex_started_at x of
                          Some s \<Rightarrow> Some (int t - int s)
                        | None \<Rightarrow> duration_ms x) \<rparr>) st"

text \<open>
  \<^verbatim>\<open>_execute_agent\<close> up to the point where it waits for the provider, and from the
  provider's answer to its end. The first half returns the index of the execution it
  appended and the outcome of the call it issued.
\<close>

definition agent_start ::
  "Providers \<Rightarrow> World \<Rightarrow> TaskState \<Rightarrow> nat \<Rightarrow> string
     \<Rightarrow> World \<times> TaskState \<times> nat \<times> (string + GenResult)"
where
  "agent_start pv w st i a =
     (let j = length (executions (phases st ! i));
          (t, w1) = utcnow w;
          st1 = agent_begin t a i st;
          w2 = emit_event w1
                 (AgentEv ''agent_started'' (task_id st1) (ph_number (phases st1 ! i)) a);
          (r, w3) = call_provider pv w2 st1
      in (w3, st1, j, r))"

definition agent_complete ::
  "World \<Rightarrow> TaskState \<Rightarrow> nat \<Rightarrow> string \<Rightarrow> nat \<Rightarrow> (string + GenResult) \<Rightarrow> World \<times> TaskState"
where
  "agent_complete w st i a j r =
     (let st1 = (case r of
                   Inr res \<Rightarrow> agent_success res a i j st
                 | Inl msg \<Rightarrow> agent_failure msg i j st);
          (t, w1) = utcnow w;
          st2 = agent_finally t i j st1;
          w2 = emit_event w1
                 (AgentEv ''agent_completed'' (task_id st2) (ph_number (phases st2 ! i)) a)
      in (w2, st2))"

definition execute_agent ::
  "Providers \<Rightarrow> World \<Rightarrow> TaskState \<Rightarrow> nat \<Rightarrow> string \<Rightarrow> World \<times> TaskState"
where
  "execute_agent pv w st i a =
     (let (w1, st1, j, r) = agent_start pv w st i a
      in agent_complete w1 st1 i a j r)"

section \<open>Phase runner (OrchestratorEngine._execute_phase)\<close>

text \<open>The sequential branch: the loop over the agents with its break after a failure.\<close>

fun run_sequential ::
  "Providers \<Rightarrow> World \<Rightarrow> TaskState \<Rightarrow> nat \<Rightarrow> string list \<Rightarrow> World \<times> TaskState"
where
  "run_sequential pv w st i [] = (w, st)"
| "run_sequential pv w st i (a # rest) =
     (let (w1, st1) = execute_agent pv w st i a;
          execs = executions (phases st1 ! i);
          last_execution = (if execs \<noteq> [] then Some (last execs) else None)
      in if (case last_execution of Some x \<Rightarrow> ex_status x = ''failed'' | None \<Rightarrow> False)
         then (w1, st1)
         else run_sequential pv w1 st1 i rest)"

text \<open>
  The parallel branch is \<^verbatim>\<open>asyncio.gather\<close> over one coroutine per agent. The order in
  which the coroutines resume is not fixed by the source. The schedule taken here starts
  every agent in list order, each up to its provider call, and then lets the calls
  finish in the same order.
\<close>

fun begin_all ::
  "Providers \<Rightarrow> World \<Rightarrow> TaskState \<Rightarrow> nat \<Rightarrow> string list
     \<Rightarrow> World \<times> TaskState \<times> (string \<times> nat \<times> (string + GenResult)) list"
where
  "begin_all pv w st i [] = (w, st, [])"
| "begin_all pv w st i (a # rest) =
     (let (w1, st1, j, r) = agent_start pv w st i a;
          (w2, st2, pend) = begin_all pv w1 st1 i rest
      in (w2, st2, (a, j, r) # pend))"

fun finish_all ::
  "World \<Rightarrow> TaskState \<Rightarrow> nat \<Rightarrow> (string \<times> nat \<times> (string + GenResult)) list \<Rightarrow> World \<times> TaskState"
where
  "finish_all w st i [] = (w, st)"
| "finish_all w st i ((a, j, r) # rest) =
     (let (w1, st1) = agent_complete w st i a j r in finish_all w1 st1 i rest)"

definition run_parallel ::
  "Providers \<Rightarrow> World \<Rightarrow> TaskState \<Rightarrow> nat \<Rightarrow> string list \<Rightarrow> World \<times> TaskState"
where
  "run_parallel pv w st i ags =
     (let (w1, st1, pend) = begin_all pv w st i ags in finish_all w1 st1 i pend)"

definition phase_begin :: "timestamp \<Rightarrow> nat \<Rightarrow> TaskState \<Rightarrow> TaskState" where
  "phase_begin t i st =
     upd_phase i (\<lambda>p. p\<lparr> ph_status := Phase_RUNNING, ph_started_at := Some t \<rparr>) st"

definition phase_finish :: "nat \<Rightarrow> TaskState \<Rightarrow> TaskState" where
  "phase_finish i st =
     upd_phase i (\<lambda>p. p\<lparr> ph_status :=
        (if list_ex (\<lambda>x. ex_status x = ''failed'') (executions p)
         then Phase_FAILED else Phase_COMPLETED) \<rparr>) st"

definition phase_finally :: "timestamp \<Rightarrow> nat \<Rightarrow> TaskState \<Rightarrow> TaskState" where
  "phase_finally t i st = upd_phase i (\<lambda>p. p\<lparr> ph_completed_at := Some t \<rparr>) st"

definition execute_phase :: "Providers \<Rightarrow> World \<Rightarrow> TaskState \<Rightarrow> nat \<Rightarrow> World \<times> TaskState" where
  "execute_phase pv w st i =
     (let (t, w1) = utcnow w;
          st1 = phase_begin t i st;
          w2 = emit_event w1
                 (PhaseEv ''phase_started'' (task_id st1) (ph_number (phases st1 ! i)));
          ags = agents (phases st1 ! i);
          (w3, st2) = (if parallel (phases st1 ! i) \<and> length ags > 1
                       then run_parallel pv w2 st1 i ags
                       else run_sequential pv w2 st1 i ags);
          st3 = phase_finish i st2;
          (t', w4) = utcnow w3;
          st4 = phase_finally t' i st3;
          w5 = emit_event w4
                 (PhaseEv ''phase_completed'' (task_id st4) (ph_number (phases st4 ! i)))
      in (w5, st4))"

section \<open>Task executor (OrchestratorEngine._execute_task)\<close>

text \<open>
  The provider's exceptions are caught in \<^verbatim>\<open>_execute_agent\<close> and emitting raises nothing,
  so nothing reaches the \<^verbatim>\<open>except Exception\<close> handlers of \<^verbatim>\<open>_execute_phase\<close> and
  \<^verbatim>\<open>_execute_task\<close>; \<^verbatim>\<open>asyncio.CancelledError\<close> comes from a concurrent cancel. The
  executor below is the body of the \<^verbatim>\<open>try\<close> of \<^verbatim>\<open>_execute_task\<close>, run to its end.
\<close>

text \<open>The loop over the phases, with its break after a failed phase.\<close>

fun run_phases ::
  "Providers \<Rightarrow> World \<Rightarrow> TaskState \<Rightarrow> nat list \<Rightarrow> World \<times> TaskState"
where
  "run_phases pv w st [] = (w, st)"
| "run_phases pv w st (phase_idx # rest) =
     (let st1 = st\<lparr> current_phase := phase_idx \<rparr>;
          (w1, st2) = execute_phase pv w st1 phase_idx
      in if ph_status (phases st2 ! phase_idx) = Phase_FAILED
         then (w1, st2\<lparr> status := FAILED \<rparr>)
         else run_phases pv w1 st2 rest)"

definition task_begin :: "timestamp \<Rightarrow> TaskState \<Rightarrow> TaskState" where
  "task_begin t st = st\<lparr> status := DECOMPOSING, started_at := Some t \<rparr>"

definition task_complete :: "timestamp \<Rightarrow> TaskState \<Rightarrow> TaskState" where
  "task_complete t st = st\<lparr> status := COMPLETED, completed_at := Some t \<rparr>"

definition execute_task_body :: "Providers \<Rightarrow> World \<Rightarrow> TaskState \<Rightarrow> World \<times> TaskState" where
  "execute_task_body pv w state =
     (let (t, w1) = utcnow w;
          st1 = task_begin t state;
          w2 = emit_event w1 (TaskEv ''task_started'' (task_id st1));
          st2 = decompose_task st1;
          st3 = st2\<lparr> status := RUNNING \<rparr>;
          w3 = emit_event w2 (TaskEv ''task_decomposed'' (task_id st3));
          (w4, st4) = run_phases pv w3 st3 [0 ..< length (phases st3)];
          (w5, st5) = (if status st4 = RUNNING
                       then (let (t', w') = utcnow w4 in (w', task_complete t' st4))
                       else (w4, st4));
          w6 = emit_event w5 (TaskEv ''task_completed'' (task_id st5))
      in (w6, st5))"

definition execute_task :: "Providers \<Rightarrow> World \<Rightarrow> Engine \<Rightarrow> string \<Rightarrow> World \<times> Engine" where
  "execute_task pv w e tid =
     (case active_tasks e tid of
        None \<Rightarrow> (w, e)
      | Some state \<Rightarrow>
          (let (w1, state') = execute_task_body pv w state
           in (w1, e\<lparr> active_tasks := (active_tasks e)(tid \<mapsto> state'),
                      workers := workers e - {tid} \<rparr>)))"

section \<open>The decomposition table as the specification words it\<close>

text \<open>
  The specification gives the deep decomposition as a table of eight named groups: each
  group is intersected with the required agents, groups with an empty intersection are
  skipped, the kept ones are numbered from 1, and a phase is parallel iff it has more
  than one agent. A phase is summarised by its number, name, agents and parallel flag.
\<close>

definition canonical_groups :: "(string \<times> string list) list" where
  "canonical_groups =
     [ (''Concept'', [''concept'']),
       (''Architecture'', [''architect'']),
       (''Implementation'', [''implement'']),
       (''Testing'', [''test'']),
       (''Review'', [''review'', ''security'']),
       (''Optimization'', [''optimize'']),
       (''Documentation'', [''docs'']),
       (''Deployment'', [''deploy'']) ]"

definition kept_groups ::
  "string list \<Rightarrow> (string \<times> string list) list \<Rightarrow> (string \<times> string list) list"
where
  "kept_groups required gs =
     filter (\<lambda>(nm, ags). ags \<noteq> [])
       (map (\<lambda>(nm, grp). (nm, filter (\<lambda>a. a \<in> set required) grp)) gs)"

definition number_from ::
  "int \<Rightarrow> (string \<times> string list) list \<Rightarrow> (int \<times> string \<times> string list \<times> bool) list"
where
  "number_from n kept =
     map (\<lambda>(k, nm, ags). (k, nm, ags, length ags > 1))
       (zip [n .. n + int (length kept) - 1] kept)"

definition spec_deep_phases :: "string list \<Rightarrow> (int \<times> string \<times> string list \<times> bool) list" where
  "spec_deep_phases required = number_from 1 (kept_groups required canonical_groups)"

definition phase_summary :: "PhaseState \<Rightarrow> int \<times> string \<times> string list \<times> bool" where
  "phase_summary p = (ph_number p, ph_name p, agents p, parallel p)"

section \<open>The accounting property and the states of a task\<close>





section \<open>Auxiliary definitions for the statements\<close>

text \<open>
  The execution record as \<^verbatim>\<open>_execute_agent\<close> leaves it: the updates of the \<^verbatim>\<open>try\<close> body or
  of the \<^verbatim>\<open>except\<close> branch, then those of \<^verbatim>\<open>finally\<close>, collected on one record.
\<close>

definition finished_execution ::
  "timestamp \<Rightarrow> (string + GenResult) \<Rightarrow> AgentExecution \<Rightarrow> AgentExecution"
where
  "finished_execution t r x =
     (let y = (case r of
                 Inl msg \<Rightarrow> x\<lparr> ex_status := ''failed'', ex_error := Some msg \<rparr>
               | Inr res \<Rightarrow> x\<lparr> ex_status := ''completed'',
                   ex_output := Some (case gen_content res of Some c \<Rightarrow> c | None \<Rightarrow> []),
                   model_used := gen_model res,
                   tokens_input := (case gen_tokens_input res of Some n \<Rightarrow> n | None \<Rightarrow> 0),
                   tokens_output := (case gen_tokens_output res of Some n \<Rightarrow> n | None \<Rightarrow> 0),
                   ex_cost := (case gen_cost res of Some c \<Rightarrow> c | None \<Rightarrow> 0) \<rparr>)
      in y\<lparr> ex_completed_at := Some t,
           duration_ms := (case ex_started_at x of
                             Some s \<Rightarrow> Some (int t - int s) | None \<Rightarrow> duration_ms x) \<rparr>)"

text \<open>The agent kinds of the agent_started events of a log, in order.\<close>

definition started_agents :: "Event list \<Rightarrow> string list" where
  "started_agents evs =
     concat (map (\<lambda>ev. case ev of
                         AgentEv nm tid num a \<Rightarrow> (if nm = ''agent_started'' then [a] else [])
                       | _ \<Rightarrow> []) evs)"

section \<open>Concrete inputs\<close>

text \<open>
  A fresh world, the engine as \<^verbatim>\<open>__init__\<close> builds it from the defaults of
  \<^verbatim>\<open>config.py\<close> (default mode QUALITY, four workers), a provider whose every call raises,
  and freshly created tasks in the SPEED, QUALITY and COST modes.
\<close>

definition world0 :: World where
  "world0 = \<lparr> now = 0, calls = 0, emitted = [] \<rparr>"

definition new_engine :: Engine where
  "new_engine =
     \<lparr> current_mode = ''QUALITY'', active_tasks = Map.empty, task_queue = [],
       workers = {}, max_workers = 4, running = False \<rparr>"

definition failing_providers :: Providers where
  "failing_providers =
     \<lparr> claude_generate = (\<lambda>n m. Inl ''boom''), ollama_generate = (\<lambda>n m. Inl ''boom'') \<rparr>"

definition speed_task :: TaskState where
  "speed_task = create_initial_task_state ''t1'' ''d'' ''SPEED'' SPEED_config None 0 0"

definition quality_task :: TaskState where
  "quality_task = create_initial_task_state ''t1'' ''d'' ''QUALITY'' QUALITY_config None 0 0"

definition cost_task :: TaskState where
  "cost_task = create_initial_task_state ''t1'' ''d'' ''COST'' COST_config None 0 0"


section \<open>Properties of the decomposer\<close>

lemma number_from_Nil: "number_from n [] = []"
  by (simp add: number_from_def)

lemma number_from_Cons:
  "number_from n ((nm, ags) # kept) = (n, nm, ags, length ags > 1) # number_from (n + 1) kept"
proof -
  have "[n .. n + int (length ((nm, ags) # kept)) - 1] = n # [n + 1 .. n + 1 + int (length kept) - 1]"
    by (subst upto_rec1) (simp_all add: algebra_simps)
  then show ?thesis by (simp add: number_from_def)
qed

lemma phase_summary_create:
  "phase_summary (create_phase_state n nm descr ags par) = (n, nm, ags, par)"
  by (simp add: phase_summary_def create_phase_state_def)

lemma decompose_loop_summary:
  "map phase_summary (decompose_loop required gs n acc) =
     map phase_summary acc @
     number_from n (kept_groups required (map (\<lambda>(grp, nm, descr). (nm, grp)) gs))"
proof (induction gs arbitrary: n acc)
  case Nil
  show ?case by (simp add: kept_groups_def number_from_Nil)
next
  case (Cons g gs)
  obtain grp nm descr where g: "g = (grp, nm, descr)" by (cases g)
  show ?case
  proof (cases "filter (\<lambda>a. a \<in> set required) grp = []")
    case True
    then show ?thesis using Cons.IH [of n acc] by (simp add: g kept_groups_def)
  next
    case False
    then show ?thesis
      using Cons.IH [of "n + 1"]
      by (simp add: g kept_groups_def number_from_Cons Let_def phase_summary_create)
  qed
qed

lemma canonical_groups_eq:
  "canonical_groups = map (\<lambda>(grp, nm, descr). (nm, grp)) phase_groups"
  by (simp add: canonical_groups_def phase_groups_def)

lemma decompose_loop_fresh:
  "\<forall>p \<in> set acc. ph_status p = Phase_PENDING \<and> executions p = [] \<Longrightarrow>
   \<forall>p \<in> set (decompose_loop required gs n acc). ph_status p = Phase_PENDING \<and> executions p = []"
  by (induction required gs n acc rule: decompose_loop.induct)
     (auto simp: create_phase_state_def Let_def)

text \<open>
  C7. For a mode of depth deep, the phases the decomposer builds are, by number, name,
  agents and parallel flag, exactly those of the specification's table: the eight
  canonical groups intersected with the required agents, in order, empty intersections
  skipped, numbered consecutively from 1, parallel iff more than one agent. Every phase
  is new: pending, with no executions.
\<close>
theorem deep_decomposition:
  assumes "decompositionDepth (mode_config st) = Some ''deep''"
  shows "map phase_summary (phases (decompose_task st)) =
           spec_deep_phases
             (case requiredAgents (mode_config st) of Some r \<Rightarrow> r | None \<Rightarrow> [''implement''])
         \<and> (\<forall>p \<in> set (phases (decompose_task st)).
               ph_status p = Phase_PENDING \<and> executions p = [])"
  using assms decompose_loop_fresh [of "[]"]
  by (simp add: decompose_task_def Let_def decompose_loop_summary spec_deep_phases_def
        canonical_groups_eq)

theorem deep_decomposition_witness:
  "decompositionDepth (mode_config quality_task) = Some ''deep''
   \<and> map phase_summary (phases (decompose_task quality_task)) =
       [(1, ''Concept'', [''concept''], False), (2, ''Architecture'', [''architect''], False),
        (3, ''Implementation'', [''implement''], False), (4, ''Testing'', [''test''], False),
        (5, ''Review'', [''review''], False), (6, ''Documentation'', [''docs''], False)]
   \<and> spec_deep_phases [''concept'', ''architect'', ''implement'', ''test'', ''review'', ''security'', ''docs'']
        ! 4 = (5, ''Review'', [''review'', ''security''], True)"
proof -
  have d: "decompositionDepth (mode_config quality_task) = Some ''deep''"
    by (simp add: quality_task_def create_initial_task_state_def QUALITY_config_def)
  have r: "requiredAgents (mode_config quality_task) =
             Some [''concept'', ''architect'', ''implement'', ''test'', ''review'', ''docs'']"
    by (simp add: quality_task_def create_initial_task_state_def QUALITY_config_def)
  have s: "spec_deep_phases [''concept'', ''architect'', ''implement'', ''test'', ''review'', ''docs''] =
       [(1, ''Concept'', [''concept''], False), (2, ''Architecture'', [''architect''], False),
        (3, ''Implementation'', [''implement''], False), (4, ''Testing'', [''test''], False),
        (5, ''Review'', [''review''], False), (6, ''Documentation'', [''docs''], False)]"
    by (simp add: spec_deep_phases_def canonical_groups_def kept_groups_def number_from_Cons
          number_from_Nil)
  have s2: "spec_deep_phases [''concept'', ''architect'', ''implement'', ''test'', ''review'', ''security'', ''docs'']
        ! 4 = (5, ''Review'', [''review'', ''security''], True)"
    by (simp add: spec_deep_phases_def canonical_groups_def kept_groups_def number_from_Cons
          number_from_Nil)
  from deep_decomposition [OF d] show ?thesis using d s s2 by (simp add: r)
qed

text \<open>
  C6, as stated, fails for the SPEED mode: its single phase "Execution" with the one agent
  implement has its parallel flag true, because the mode's parallelization level is
  aggressive.
\<close>

theorem shallow_single_agent_counterexample:
  "decompositionDepth SPEED_config = Some ''shallow''
   \<and> requiredAgents SPEED_config = Some [''implement'']
   \<and> map phase_summary (phases (decompose_task speed_task)) =
       [(1, ''Execution'', [''implement''], True)]"
  by (simp add: speed_task_def create_initial_task_state_def SPEED_config_def decompose_task_def
        create_phase_state_def phase_summary_def)

text \<open>
  C6, amended. For a shallow mode with exactly one required agent the decomposer builds
  exactly one phase, numbered 1 and named "Execution", containing that agent; its
  parallel flag is true iff the mode's parallelization level is aggressive.
\<close>

theorem shallow_single_agent:
  assumes "decompositionDepth (mode_config st) = Some ''shallow''"
    and "requiredAgents (mode_config st) = Some [a]"
  shows "map phase_summary (phases (decompose_task st)) =
           [(1, ''Execution'', [a], parallelizationLevel (mode_config st) = Some ''aggressive'')]"
  using assms by (simp add: decompose_task_def phase_summary_create)

theorem shallow_single_agent_witness:
  "decompositionDepth (mode_config speed_task) = Some ''shallow''
   \<and> requiredAgents (mode_config speed_task) = Some [''implement'']
   \<and> map phase_summary (phases (decompose_task speed_task)) =
       [(1, ''Execution'', [''implement''], True)]"
proof -
  have d: "decompositionDepth (mode_config speed_task) = Some ''shallow''"
    and r: "requiredAgents (mode_config speed_task) = Some [''implement'']"
    and l: "parallelizationLevel (mode_config speed_task) = Some ''aggressive''"
    by (simp_all add: speed_task_def create_initial_task_state_def SPEED_config_def)
  from shallow_single_agent [OF d r] show ?thesis using d r l by simp
qed


section \<open>Properties of the engine facade\<close>

lemma sort_queue_Inr:
  "set q \<subseteq> dom active \<Longrightarrow>
   sort_queue active q =
     Inr (sort_key (\<lambda>tid. case active tid of Some s \<Rightarrow> - priority s | None \<Rightarrow> 0) q)"
proof -
  assume "set q \<subseteq> dom active"
  then have "find (\<lambda>tid. active tid = None) q = None"
    by (auto simp: find_None_iff)
  then show ?thesis by (simp add: sort_queue_def)
qed

lemma count_list_insort_key:
  "count_list (insort_key f x xs) y = count_list (x # xs) y"
  by (induction xs) auto

lemma count_list_sort_key: "count_list (sort_key f xs) y = count_list xs y"
  by (induction xs) (simp_all add: count_list_insort_key)

lemma submit_task_result:
  assumes "set (task_queue e) \<subseteq> dom (active_tasks e)"
  shows "submit_task w e tid descr mode_arg proj prio =
     Inr (w\<lparr> now := now w + 1, emitted := emitted w @ [TaskEv ''task_submitted'' tid] \<rparr>,
          e\<lparr> active_tasks := (active_tasks e)(tid \<mapsto>
                create_initial_task_state tid descr (mode_or_current e mode_arg)
                  (config_or_quality (mode_or_current e mode_arg)) proj prio (now w)),
             task_queue := sort_key
                (\<lambda>k. case ((active_tasks e)(tid \<mapsto>
                         create_initial_task_state tid descr (mode_or_current e mode_arg)
                           (config_or_quality (mode_or_current e mode_arg)) proj prio (now w))) k of
                        Some s \<Rightarrow> - priority s | None \<Rightarrow> 0)
                (task_queue e @ [tid]) \<rparr>,
          create_initial_task_state tid descr (mode_or_current e mode_arg)
            (config_or_quality (mode_or_current e mode_arg)) proj prio (now w))"
proof -
  let ?s = "create_initial_task_state tid descr (mode_or_current e mode_arg)
              (config_or_quality (mode_or_current e mode_arg)) proj prio (now w)"
  have "set (task_queue e @ [tid]) \<subseteq> dom ((active_tasks e)(tid \<mapsto> ?s))"
    using assms by auto
  from sort_queue_Inr [OF this] show ?thesis
    by (simp add: submit_task_def Let_def utcnow_def emit_event_def)
qed

text \<open>
  Every id in the queue has a state: this holds for the engine as built and is kept by
  submit, cancel and the executor, so the sort in \<^verbatim>\<open>submit_task\<close> never raises.
\<close>

lemma queue_states_new_engine:
  "set (task_queue new_engine) \<subseteq> dom (active_tasks new_engine)"
  by (simp add: new_engine_def)

lemma queue_states_submit:
  assumes "set (task_queue e) \<subseteq> dom (active_tasks e)"
    and "submit_task w e tid descr mode_arg proj prio = Inr (w', e', s)"
  shows "set (task_queue e') \<subseteq> dom (active_tasks e')"
  using assms(2) assms(1) unfolding submit_task_result [OF assms(1)] by auto

lemma queue_states_cancel:
  assumes "set (task_queue e) \<subseteq> dom (active_tasks e)"
  shows "set (task_queue (fst (snd (cancel_task w e tid))))
           \<subseteq> dom (active_tasks (fst (snd (cancel_task w e tid))))"
proof -
  have "set (remove1 tid (task_queue e)) \<subseteq> set (task_queue e)"
    by (rule set_remove1_subset)
  then show ?thesis
    using assms
    by (auto simp: cancel_task_def Let_def utcnow_def split: option.splits)
qed

lemma queue_states_execute:
  assumes "set (task_queue e) \<subseteq> dom (active_tasks e)"
  shows "set (task_queue (snd (execute_task pv w e tid)))
           \<subseteq> dom (active_tasks (snd (execute_task pv w e tid)))"
  using assms by (auto simp: execute_task_def Let_def split_def split: option.splits)

lemma switch_mode_unknown:
  "switch_mode new_engine ''TURBO'' = Inl (ValueError ''Unknown mode: TURBO'')"
  by (simp add: switch_mode_def MODE_CONFIGS_def)

text \<open>
  C3, as stated, fails: a submit that names the unregistered mode TURBO returns a task
  state and stores it; the state keeps the name TURBO and carries the QUALITY
  configuration.
\<close>

theorem submit_unknown_mode_counterexample:
  "MODE_CONFIGS ''TURBO'' = None
   \<and> submit_task world0 new_engine ''t1'' ''d'' (Some ''TURBO'') None 0 =
       Inr (\<lparr> now = 1, calls = 0, emitted = [TaskEv ''task_submitted'' ''t1''] \<rparr>,
            new_engine\<lparr> active_tasks :=
                [''t1'' \<mapsto> create_initial_task_state ''t1'' ''d'' ''TURBO'' QUALITY_config None 0 0],
              task_queue := [''t1''] \<rparr>,
            create_initial_task_state ''t1'' ''d'' ''TURBO'' QUALITY_config None 0 0)"
  by (simp add: MODE_CONFIGS_def submit_task_def mode_or_current_def config_or_quality_def
        world0_def new_engine_def utcnow_def emit_event_def sort_queue_def Let_def)

text \<open>
  C3, amended. A submit whose mode argument names a mode that is not registered does not
  fail: it returns a new pending task state that keeps the given mode name and carries the
  QUALITY configuration, stores it under the task id, queues the id and emits
  task_submitted. (The engine's queue holds only ids that have a state.)
\<close>

theorem submit_unknown_mode:
  assumes "m \<noteq> []" and "MODE_CONFIGS m = None"
    and "set (task_queue e) \<subseteq> dom (active_tasks e)"
  shows "\<exists>w' e'.
     submit_task w e tid descr (Some m) proj prio =
       Inr (w', e', create_initial_task_state tid descr m QUALITY_config proj prio (now w))
     \<and> active_tasks e' tid =
         Some (create_initial_task_state tid descr m QUALITY_config proj prio (now w))
     \<and> tid \<in> set (task_queue e')
     \<and> emitted w' = emitted w @ [TaskEv ''task_submitted'' tid]"
  using assms(1,2)
  by (simp add: submit_task_result [OF assms(3)] mode_or_current_def config_or_quality_def)

theorem submit_unknown_mode_witness:
  "''TURBO'' \<noteq> [] \<and> MODE_CONFIGS ''TURBO'' = None
   \<and> set (task_queue new_engine) \<subseteq> dom (active_tasks new_engine)
   \<and> (\<exists>w' e'.
     submit_task world0 new_engine ''t1'' ''d'' (Some ''TURBO'') None 0 =
       Inr (w', e', create_initial_task_state ''t1'' ''d'' ''TURBO'' QUALITY_config None 0 0)
     \<and> active_tasks e' ''t1'' =
         Some (create_initial_task_state ''t1'' ''d'' ''TURBO'' QUALITY_config None 0 0)
     \<and> ''t1'' \<in> set (task_queue e')
     \<and> emitted w' = emitted world0 @ [TaskEv ''task_submitted'' ''t1''])"
proof -
  have a: "''TURBO'' \<noteq> []" by simp
  have b: "MODE_CONFIGS ''TURBO'' = None" by (simp add: MODE_CONFIGS_def)
  have c: "set (task_queue new_engine) \<subseteq> dom (active_tasks new_engine)"
    by (simp add: new_engine_def)
  have n: "now world0 = 0" by (simp add: world0_def)
  from submit_unknown_mode [OF a b c, of world0 "''t1''" "''d''" None 0]
  show ?thesis using a b c by (simp add: n)
qed

text \<open>
  C4, as stated, fails: a second submit with the id of a pending task returns a task
  state, the state stored under the id is that of the second call, and the id is queued
  twice.
\<close>

theorem submit_duplicate_counterexample:
  "submit_task world0 new_engine ''t1'' ''first'' (Some ''SPEED'') None 5 =
     Inr (\<lparr> now = 1, calls = 0, emitted = [TaskEv ''task_submitted'' ''t1''] \<rparr>,
          new_engine\<lparr> active_tasks :=
              [''t1'' \<mapsto> create_initial_task_state ''t1'' ''first'' ''SPEED'' SPEED_config None 5 0],
            task_queue := [''t1''] \<rparr>,
          create_initial_task_state ''t1'' ''first'' ''SPEED'' SPEED_config None 5 0)
   \<and> submit_task \<lparr> now = 1, calls = 0, emitted = [TaskEv ''task_submitted'' ''t1''] \<rparr>
       (new_engine\<lparr> active_tasks :=
              [''t1'' \<mapsto> create_initial_task_state ''t1'' ''first'' ''SPEED'' SPEED_config None 5 0],
            task_queue := [''t1''] \<rparr>)
       ''t1'' ''second'' (Some ''COST'') None 0 =
     Inr (\<lparr> now = 2, calls = 0,
            emitted = [TaskEv ''task_submitted'' ''t1'', TaskEv ''task_submitted'' ''t1''] \<rparr>,
          new_engine\<lparr> active_tasks :=
              [''t1'' \<mapsto> create_initial_task_state ''t1'' ''second'' ''COST'' COST_config None 0 1],
            task_queue := [''t1'', ''t1''] \<rparr>,
          create_initial_task_state ''t1'' ''second'' ''COST'' COST_config None 0 1)
   \<and> create_initial_task_state ''t1'' ''second'' ''COST'' COST_config None 0 1
       \<noteq> create_initial_task_state ''t1'' ''first'' ''SPEED'' SPEED_config None 5 0"
  by (simp add: MODE_CONFIGS_def submit_task_def mode_or_current_def config_or_quality_def
        world0_def new_engine_def utcnow_def emit_event_def sort_queue_def Let_def
        create_initial_task_state_def)

text \<open>
  C4, amended. A submit with the id of a task that already has a state does not fail: it
  returns a new pending state built from the arguments of this call, stores it under the
  id in place of the earlier state, queues the id once more and emits task_submitted.
  (The engine's queue holds only ids that have a state.)
\<close>

theorem submit_duplicate:
  assumes "active_tasks e tid = Some old"
    and "set (task_queue e) \<subseteq> dom (active_tasks e)"
  shows "\<exists>w' e'.
     submit_task w e tid descr mode_arg proj prio =
       Inr (w', e', create_initial_task_state tid descr (mode_or_current e mode_arg)
                      (config_or_quality (mode_or_current e mode_arg)) proj prio (now w))
     \<and> active_tasks e' tid =
         Some (create_initial_task_state tid descr (mode_or_current e mode_arg)
                 (config_or_quality (mode_or_current e mode_arg)) proj prio (now w))
     \<and> count_list (task_queue e') tid = count_list (task_queue e) tid + 1
     \<and> emitted w' = emitted w @ [TaskEv ''task_submitted'' tid]"
  by (simp add: submit_task_result [OF assms(2)] count_list_sort_key)


theorem submit_duplicate_witness:
  "active_tasks (new_engine\<lparr> active_tasks := [''t1'' \<mapsto> speed_task], task_queue := [''t1''] \<rparr>) ''t1''
     = Some speed_task
   \<and> set (task_queue (new_engine\<lparr> active_tasks := [''t1'' \<mapsto> speed_task], task_queue := [''t1''] \<rparr>))
       \<subseteq> dom (active_tasks (new_engine\<lparr> active_tasks := [''t1'' \<mapsto> speed_task], task_queue := [''t1''] \<rparr>))
   \<and> (\<exists>w' e'.
     submit_task world0 (new_engine\<lparr> active_tasks := [''t1'' \<mapsto> speed_task], task_queue := [''t1''] \<rparr>)
         ''t1'' ''second'' (Some ''COST'') None 0 =
       Inr (w', e', create_initial_task_state ''t1'' ''second'' ''COST'' COST_config None 0 0)
     \<and> active_tasks e' ''t1'' =
         Some (create_initial_task_state ''t1'' ''second'' ''COST'' COST_config None 0 0)
     \<and> count_list (task_queue e') ''t1'' = 2
     \<and> emitted w' = [TaskEv ''task_submitted'' ''t1''])"
proof -
  let ?e = "new_engine\<lparr> active_tasks := [''t1'' \<mapsto> speed_task], task_queue := [''t1''] \<rparr>"
  have a: "active_tasks ?e ''t1'' = Some speed_task" by simp
  have b: "set (task_queue ?e) \<subseteq> dom (active_tasks ?e)" by simp
  have m: "mode_or_current ?e (Some ''COST'') = ''COST''"
    by (simp add: mode_or_current_def)
  have c: "config_or_quality ''COST'' = COST_config"
    by (simp add: config_or_quality_def MODE_CONFIGS_def)
  have n: "now world0 = 0" "emitted world0 = []" by (simp_all add: world0_def)
  from submit_duplicate [OF a b, of world0 "''second''" "Some ''COST''" None 0]
  show ?thesis using a b by (simp add: m c n numeral_2_eq_2)
qed


section \<open>The executor and cancel on concrete runs\<close>

text \<open>
  C1 on a QUALITY task whose provider raises at every call. The first phase fails, the
  loop stops (the five later phases stay pending with no execution) and the task's status
  is failed, as the claim says; but the event that ends the task is task_completed, and no
  task_failed is emitted.
\<close>

theorem failed_phase_emits_task_completed:
  "map_option (\<lambda>s. (status s, map ph_status (phases s), map (\<lambda>p. length (executions p)) (phases s)))
     (active_tasks (snd (execute_task failing_providers world0
        (new_engine\<lparr> active_tasks := [''t1'' \<mapsto> quality_task] \<rparr>) ''t1'')) ''t1'')
     = Some (FAILED,
             [Phase_FAILED, Phase_PENDING, Phase_PENDING, Phase_PENDING, Phase_PENDING, Phase_PENDING],
             [1, 0, 0, 0, 0, 0])
   \<and> emitted (fst (execute_task failing_providers world0
        (new_engine\<lparr> active_tasks := [''t1'' \<mapsto> quality_task] \<rparr>) ''t1'')) =
       [TaskEv ''task_started'' ''t1'', TaskEv ''task_decomposed'' ''t1'',
        PhaseEv ''phase_started'' ''t1'' 1,
        AgentEv ''agent_started'' ''t1'' 1 ''concept'',
        AgentEv ''agent_completed'' ''t1'' 1 ''concept'',
        PhaseEv ''phase_completed'' ''t1'' 1,
        TaskEv ''task_completed'' ''t1'']"
  by code_simp

text \<open>
  C2 on a SPEED task whose provider raises: after the executor has run, the task's status
  is failed, which is terminal, and its completed_at is still unset.
\<close>

theorem failed_phase_leaves_completed_at_unset:
  "map_option (\<lambda>s. (status s, completed_at s))
     (active_tasks (snd (execute_task failing_providers world0
        (new_engine\<lparr> active_tasks := [''t1'' \<mapsto> speed_task] \<rparr>) ''t1'')) ''t1'')
     = Some (FAILED, None)"
  by code_simp

text \<open>
  C5 on a pending task cancelled twice: the first cancel returns true and leaves the task
  cancelled; the second cancel, on the now cancelled task, returns true again, overwrites
  completed_at and emits task_cancelled a second time.
\<close>

theorem cancel_twice_returns_true:
  "cancel_task world0 (new_engine\<lparr> active_tasks := [''t1'' \<mapsto> speed_task], task_queue := [''t1''] \<rparr>) ''t1'' =
     (\<lparr> now = 1, calls = 0, emitted = [TaskEv ''task_cancelled'' ''t1''] \<rparr>,
      new_engine\<lparr> active_tasks := [''t1'' \<mapsto> speed_task\<lparr> status := CANCELLED, completed_at := Some 0 \<rparr>] \<rparr>,
      True)
   \<and> cancel_task \<lparr> now = 1, calls = 0, emitted = [TaskEv ''task_cancelled'' ''t1''] \<rparr>
       (new_engine\<lparr> active_tasks := [''t1'' \<mapsto> speed_task\<lparr> status := CANCELLED, completed_at := Some 0 \<rparr>] \<rparr>)
       ''t1'' =
     (\<lparr> now = 2, calls = 0, emitted = [TaskEv ''task_cancelled'' ''t1'', TaskEv ''task_cancelled'' ''t1''] \<rparr>,
      new_engine\<lparr> active_tasks := [''t1'' \<mapsto> speed_task\<lparr> status := CANCELLED, completed_at := Some 1 \<rparr>] \<rparr>,
      True)"
  by (simp add: cancel_task_def world0_def new_engine_def speed_task_def
        create_initial_task_state_def utcnow_def emit_event_def Let_def)


section \<open>Properties of the agent runner\<close>

lemma upd_phase_frame [simp]:
  "task_id (upd_phase i f st) = task_id st"
  "status (upd_phase i f st) = status st"
  "tokens_used (upd_phase i f st) = tokens_used st"
  "estimated_cost (upd_phase i f st) = estimated_cost st"
  "results (upd_phase i f st) = results st"
  "mode_config (upd_phase i f st) = mode_config st"
  "completed_at (upd_phase i f st) = completed_at st"
  "started_at (upd_phase i f st) = started_at st"
  "errors (upd_phase i f st) = errors st"
  "length (phases (upd_phase i f st)) = length (phases st)"
  by (simp_all add: upd_phase_def)

lemma upd_phase_nth [simp]:
  "i < length (phases st) \<Longrightarrow> phases (upd_phase i f st) ! i = f (phases st ! i)"
  by (simp add: upd_phase_def)

lemma upd_phase_nth_other [simp]:
  "k \<noteq> i \<Longrightarrow> phases (upd_phase i f st) ! k = phases st ! k"
  by (simp add: upd_phase_def)

lemma call_provider_world [simp]:
  "emitted (snd (call_provider pv w st)) = emitted w"
  "now (snd (call_provider pv w st)) = now w"
  "calls (snd (call_provider pv w st)) = calls w + 1"
  by (simp_all add: call_provider_def Let_def)

lemma call_provider_outcome:
  "calls w' = calls w \<Longrightarrow> mode_config st' = mode_config st \<Longrightarrow>
   fst (call_provider pv w' st') = fst (call_provider pv w st)"
  by (simp add: call_provider_def Let_def)

text \<open>The first half of an agent run, written out.\<close>

lemma agent_start_eq:
  "agent_start pv w st i a =
     (snd (call_provider pv
        (w\<lparr> now := now w + 1, emitted := emitted w @
            [AgentEv ''agent_started'' (task_id st) (ph_number (phases (agent_begin (now w) a i st) ! i)) a] \<rparr>)
        (agent_begin (now w) a i st)),
      agent_begin (now w) a i st,
      length (executions (phases st ! i)),
      fst (call_provider pv w st))"
proof -
  have "fst (call_provider pv
        (w\<lparr> now := now w + 1, emitted := emitted w @
            [AgentEv ''agent_started'' (task_id st) (ph_number (phases (agent_begin (now w) a i st) ! i)) a] \<rparr>)
        (agent_begin (now w) a i st)) = fst (call_provider pv w st)"
    by (rule call_provider_outcome) (simp_all add: agent_begin_def)
  then show ?thesis
    by (simp add: agent_start_def Let_def utcnow_def emit_event_def split_def agent_begin_def)
qed

lemma agent_begin_phase:
  assumes "i < length (phases st)"
  shows "executions (phases (agent_begin t a i st) ! i) =
           executions (phases st ! i) @
             [(create_agent_execution a)\<lparr> ex_started_at := Some t, ex_status := ''running'' \<rparr>]"
    and "ph_number (phases (agent_begin t a i st) ! i) = ph_number (phases st ! i)"
    and "agents (phases (agent_begin t a i st) ! i) = agents (phases st ! i)"
    and "parallel (phases (agent_begin t a i st) ! i) = parallel (phases st ! i)"
    and "ph_status (phases (agent_begin t a i st) ! i) = ph_status (phases st ! i)"
  using assms by (simp_all add: agent_begin_def)

lemma agent_begin_frame [simp]:
  "task_id (agent_begin t a i st) = task_id st"
  "status (agent_begin t a i st) = status st"
  "tokens_used (agent_begin t a i st) = tokens_used st"
  "estimated_cost (agent_begin t a i st) = estimated_cost st"
  "results (agent_begin t a i st) = results st"
  "mode_config (agent_begin t a i st) = mode_config st"
  "length (phases (agent_begin t a i st)) = length (phases st)"
  "k \<noteq> i \<Longrightarrow> phases (agent_begin t a i st) ! k = phases st ! k"
  by (simp_all add: agent_begin_def)

lemma agent_complete_phases:
  assumes "i < length (phases st)" and "j < length (executions (phases st ! i))"
  shows "phases (snd (agent_complete w st i a j r)) =
           (phases st)[i := (phases st ! i)\<lparr> executions :=
              (executions (phases st ! i))[j := finished_execution (now w) r (executions (phases st ! i) ! j)] \<rparr>]"
  using assms
  by (cases r)
     (simp_all add: agent_complete_def Let_def utcnow_def emit_event_def split_def
        agent_success_def agent_failure_def agent_finally_def upd_execution_def upd_phase_def
        finished_execution_def split: option.splits)

lemma agent_complete_world:
  assumes "i < length (phases st)"
  shows "fst (agent_complete w st i a j r) =
           w\<lparr> now := now w + 1, emitted := emitted w @
             [AgentEv ''agent_completed'' (task_id st) (ph_number (phases st ! i)) a] \<rparr>"
  using assms
  by (cases r)
     (simp_all add: agent_complete_def Let_def utcnow_def emit_event_def split_def
        agent_success_def agent_failure_def agent_finally_def upd_execution_def)

lemma agent_complete_frame [simp]:
  "task_id (snd (agent_complete w st i a j r)) = task_id st"
  "status (snd (agent_complete w st i a j r)) = status st"
  "mode_config (snd (agent_complete w st i a j r)) = mode_config st"
  "length (phases (snd (agent_complete w st i a j r))) = length (phases st)"
  by (cases r;
      simp add: agent_complete_def Let_def utcnow_def split_def
        agent_success_def agent_failure_def agent_finally_def upd_execution_def)+

lemma agent_complete_failure:
  "tokens_used (snd (agent_complete w st i a j (Inl msg))) = tokens_used st"
  "estimated_cost (snd (agent_complete w st i a j (Inl msg))) = estimated_cost st"
  "results (snd (agent_complete w st i a j (Inl msg))) = results st"
  by (simp_all add: agent_complete_def Let_def utcnow_def split_def
        agent_failure_def agent_finally_def upd_execution_def)

lemma agent_complete_success:
  "tokens_used (snd (agent_complete w st i a j (Inr res))) =
     tokens_used st + ((case gen_tokens_input res of Some n \<Rightarrow> n | None \<Rightarrow> 0)
                       + (case gen_tokens_output res of Some n \<Rightarrow> n | None \<Rightarrow> 0))"
  "estimated_cost (snd (agent_complete w st i a j (Inr res))) =
     estimated_cost st + (case gen_cost res of Some c \<Rightarrow> c | None \<Rightarrow> 0)"
  by (simp_all add: agent_complete_def Let_def utcnow_def split_def
        agent_success_def agent_finally_def upd_execution_def)


lemma finished_execution_simps [simp]:
  "agent_type (finished_execution t r x) = agent_type x"
  "ex_status (finished_execution t (Inl msg) x) = ''failed''"
  "ex_error (finished_execution t (Inl msg) x) = Some msg"
  "ex_status (finished_execution t (Inr res) x) = ''completed''"
  "tokens_input (finished_execution t (Inr res) x) =
     (case gen_tokens_input res of Some n \<Rightarrow> n | None \<Rightarrow> 0)"
  "tokens_output (finished_execution t (Inr res) x) =
     (case gen_tokens_output res of Some n \<Rightarrow> n | None \<Rightarrow> 0)"
  "ex_cost (finished_execution t (Inr res) x) = (case gen_cost res of Some c \<Rightarrow> c | None \<Rightarrow> 0)"
  by (cases r; simp add: finished_execution_def)+

lemma execute_agent_unfold:
  "execute_agent pv w st i a =
     agent_complete
       (snd (call_provider pv
          (w\<lparr> now := now w + 1, emitted := emitted w @
              [AgentEv ''agent_started'' (task_id st)
                 (ph_number (phases (agent_begin (now w) a i st) ! i)) a] \<rparr>)
          (agent_begin (now w) a i st)))
       (agent_begin (now w) a i st) i a (length (executions (phases st ! i)))
       (fst (call_provider pv w st))"
  by (simp add: execute_agent_def agent_start_eq)

lemma execute_agent_phases:
  assumes "i < length (phases st)"
  shows "phases (snd (execute_agent pv w st i a)) =
     (phases st)[i := (phases st ! i)\<lparr> executions := executions (phases st ! i) @
        [finished_execution (now w + 1) (fst (call_provider pv w st))
           ((create_agent_execution a)\<lparr> ex_started_at := Some (now w), ex_status := ''running'' \<rparr>)] \<rparr>]"
proof -
  let ?st1 = "agent_begin (now w) a i st"
  have i1: "i < length (phases ?st1)" using assms by simp
  have j1: "length (executions (phases st ! i)) < length (executions (phases ?st1 ! i))"
    using assms by (simp add: agent_begin_phase)
  show ?thesis
    unfolding execute_agent_unfold
    by (subst agent_complete_phases [OF i1 j1])
       (use assms in \<open>simp add: agent_begin_def upd_phase_def\<close>)
qed

lemma execute_agent_world:
  assumes "i < length (phases st)"
  shows "emitted (fst (execute_agent pv w st i a)) =
           emitted w @ [AgentEv ''agent_started'' (task_id st) (ph_number (phases st ! i)) a,
                        AgentEv ''agent_completed'' (task_id st) (ph_number (phases st ! i)) a]"
    and "calls (fst (execute_agent pv w st i a)) = calls w + 1"
    and "now (fst (execute_agent pv w st i a)) = now w + 2"
proof -
  let ?st1 = "agent_begin (now w) a i st"
  have i1: "i < length (phases ?st1)" using assms by simp
  show "emitted (fst (execute_agent pv w st i a)) =
           emitted w @ [AgentEv ''agent_started'' (task_id st) (ph_number (phases st ! i)) a,
                        AgentEv ''agent_completed'' (task_id st) (ph_number (phases st ! i)) a]"
    and "calls (fst (execute_agent pv w st i a)) = calls w + 1"
    and "now (fst (execute_agent pv w st i a)) = now w + 2"
    unfolding execute_agent_unfold agent_complete_world [OF i1]
    using assms by (simp_all add: agent_begin_phase)
qed

lemma execute_agent_frame [simp]:
  "task_id (snd (execute_agent pv w st i a)) = task_id st"
  "status (snd (execute_agent pv w st i a)) = status st"
  "mode_config (snd (execute_agent pv w st i a)) = mode_config st"
  "length (phases (snd (execute_agent pv w st i a))) = length (phases st)"
  by (simp_all add: execute_agent_unfold)

lemma execute_agent_accumulators:
  "fst (call_provider pv w st) = Inl msg \<Longrightarrow>
     tokens_used (snd (execute_agent pv w st i a)) = tokens_used st
     \<and> estimated_cost (snd (execute_agent pv w st i a)) = estimated_cost st
     \<and> results (snd (execute_agent pv w st i a)) = results st"
  "fst (call_provider pv w st) = Inr res \<Longrightarrow>
     tokens_used (snd (execute_agent pv w st i a)) =
       tokens_used st + ((case gen_tokens_input res of Some n \<Rightarrow> n | None \<Rightarrow> 0)
                         + (case gen_tokens_output res of Some n \<Rightarrow> n | None \<Rightarrow> 0))
     \<and> estimated_cost (snd (execute_agent pv w st i a)) =
       estimated_cost st + (case gen_cost res of Some c \<Rightarrow> c | None \<Rightarrow> 0)"
  by (simp_all add: execute_agent_unfold agent_complete_failure agent_complete_success)

text \<open>
  C9. When the provider call of an agent run raises, the run adds one execution record to
  the phase, for that agent, with status failed and the exception's message as its error,
  and the task's tokens_used, estimated_cost and results are what they were before the
  run.
\<close>

theorem provider_error_recorded:
  assumes "i < length (phases st)"
    and "fst (call_provider pv w st) = Inl msg"
  shows "\<exists>x. executions (phases (snd (execute_agent pv w st i a)) ! i) =
               executions (phases st ! i) @ [x]
             \<and> agent_type x = a \<and> ex_status x = ''failed'' \<and> ex_error x = Some msg
             \<and> tokens_used (snd (execute_agent pv w st i a)) = tokens_used st
             \<and> estimated_cost (snd (execute_agent pv w st i a)) = estimated_cost st
             \<and> results (snd (execute_agent pv w st i a)) = results st"
  using assms
  by (simp add: execute_agent_phases execute_agent_accumulators create_agent_execution_def)


theorem provider_error_recorded_witness:
  "0 < length (phases (decompose_task speed_task))
   \<and> fst (call_provider failing_providers world0 (decompose_task speed_task)) = Inl ''boom''
   \<and> (\<exists>x. executions (phases (snd (execute_agent failing_providers world0
                 (decompose_task speed_task) 0 ''implement'')) ! 0) = [x]
          \<and> agent_type x = ''implement'' \<and> ex_status x = ''failed'' \<and> ex_error x = Some ''boom'')
   \<and> tokens_used (snd (execute_agent failing_providers world0
         (decompose_task speed_task) 0 ''implement'')) = 0
   \<and> estimated_cost (snd (execute_agent failing_providers world0
         (decompose_task speed_task) 0 ''implement'')) = 0"
proof -
  have h1: "0 < length (phases (decompose_task speed_task))" by code_simp
  have h2: "fst (call_provider failing_providers world0 (decompose_task speed_task)) = Inl ''boom''"
    by code_simp
  have e: "executions (phases (decompose_task speed_task) ! 0) = []" by code_simp
  have t: "tokens_used (decompose_task speed_task) = 0" by code_simp
  have c: "estimated_cost (decompose_task speed_task) = 0" by code_simp
  from provider_error_recorded [OF h1 h2, of "''implement''"]
  have "\<exists>x. executions (phases (snd (execute_agent failing_providers world0
                 (decompose_task speed_task) 0 ''implement'')) ! 0) = [x]
          \<and> agent_type x = ''implement'' \<and> ex_status x = ''failed'' \<and> ex_error x = Some ''boom''
          \<and> tokens_used (snd (execute_agent failing_providers world0
                (decompose_task speed_task) 0 ''implement'')) = 0
          \<and> estimated_cost (snd (execute_agent failing_providers world0
                (decompose_task speed_task) 0 ''implement'')) = 0"
    by (auto simp: e t c)
  then show ?thesis using h1 h2 by blast
qed

section \<open>Properties of the phase runner\<close>

lemma started_agents_simps [simp]:
  "started_agents [] = []"
  "started_agents (evs @ evs') = started_agents evs @ started_agents evs'"
  "started_agents (AgentEv ''agent_started'' tid num a # evs) = a # started_agents evs"
  "started_agents (AgentEv ''agent_completed'' tid num a # evs) = started_agents evs"
  "started_agents (PhaseEv nm tid num # evs) = started_agents evs"
  "started_agents (TaskEv nm tid # evs) = started_agents evs"
  by (simp_all add: started_agents_def)

lemma execute_agent_phase_fields:
  assumes "i < length (phases st)"
  shows "executions (phases (snd (execute_agent pv w st i a)) ! i) =
           executions (phases st ! i) @
             [finished_execution (now w + 1) (fst (call_provider pv w st))
               ((create_agent_execution a)\<lparr> ex_started_at := Some (now w), ex_status := ''running'' \<rparr>)]"
    and "ph_number (phases (snd (execute_agent pv w st i a)) ! i) = ph_number (phases st ! i)"
    and "agents (phases (snd (execute_agent pv w st i a)) ! i) = agents (phases st ! i)"
    and "parallel (phases (snd (execute_agent pv w st i a)) ! i) = parallel (phases st ! i)"
    and "ph_status (phases (snd (execute_agent pv w st i a)) ! i) = ph_status (phases st ! i)"
  using assms by (simp_all add: execute_agent_phases)

lemma run_sequential_props:
  assumes "i < length (phases st)"
  shows "\<exists>new evs.
      executions (phases (snd (run_sequential pv w st i ags)) ! i) = executions (phases st ! i) @ new
    \<and> emitted (fst (run_sequential pv w st i ags)) = emitted w @ evs
    \<and> map agent_type new = take (length new) ags
    \<and> started_agents evs = map agent_type new
    \<and> (\<forall>k < length new. ex_status (new ! k) = ''failed'' \<longrightarrow> Suc k = length new)
    \<and> (length new < length ags \<longrightarrow> new \<noteq> [] \<and> ex_status (last new) = ''failed'')
    \<and> length (phases (snd (run_sequential pv w st i ags))) = length (phases st)
    \<and> task_id (snd (run_sequential pv w st i ags)) = task_id st
    \<and> ph_number (phases (snd (run_sequential pv w st i ags)) ! i) = ph_number (phases st ! i)"
  using assms
proof (induction ags arbitrary: w st)
  case Nil
  show ?case by simp
next
  case (Cons a rest)
  let ?w1 = "fst (execute_agent pv w st i a)"
  let ?st1 = "snd (execute_agent pv w st i a)"
  let ?x = "finished_execution (now w + 1) (fst (call_provider pv w st))
              ((create_agent_execution a)\<lparr> ex_started_at := Some (now w), ex_status := ''running'' \<rparr>)"
  let ?evs = "[AgentEv ''agent_started'' (task_id st) (ph_number (phases st ! i)) a,
               AgentEv ''agent_completed'' (task_id st) (ph_number (phases st ! i)) a]"
  have ex1: "executions (phases ?st1 ! i) = executions (phases st ! i) @ [?x]"
    and num1: "ph_number (phases ?st1 ! i) = ph_number (phases st ! i)"
    using Cons.prems by (simp_all add: execute_agent_phase_fields)
  have ev1: "emitted ?w1 = emitted w @ ?evs"
    using Cons.prems by (simp add: execute_agent_world)
  have ty: "agent_type ?x = a" by (simp add: create_agent_execution_def)
  have i1: "i < length (phases ?st1)" using Cons.prems by simp
  show ?case
  proof (cases "ex_status ?x = ''failed''")
    case True
    then have run: "run_sequential pv w st i (a # rest) = (?w1, ?st1)"
      by (simp add: Let_def split_def ex1)
    show ?thesis
      unfolding run
      by (rule exI [of _ "[?x]"], rule exI [of _ ?evs])
         (use True ex1 ev1 ty num1 in simp)
  next
    case False
    then have run: "run_sequential pv w st i (a # rest) = run_sequential pv ?w1 ?st1 i rest"
      by (simp add: Let_def split_def ex1)
    from Cons.IH [OF i1, of ?w1] obtain new evs where
      a1: "executions (phases (snd (run_sequential pv ?w1 ?st1 i rest)) ! i) =
             executions (phases ?st1 ! i) @ new"
      and a2: "emitted (fst (run_sequential pv ?w1 ?st1 i rest)) = emitted ?w1 @ evs"
      and a3: "map agent_type new = take (length new) rest"
      and a4: "started_agents evs = map agent_type new"
      and a5: "\<forall>k < length new. ex_status (new ! k) = ''failed'' \<longrightarrow> Suc k = length new"
      and a6: "length new < length rest \<longrightarrow> new \<noteq> [] \<and> ex_status (last new) = ''failed''"
      and a7: "length (phases (snd (run_sequential pv ?w1 ?st1 i rest))) = length (phases ?st1)"
      and a8: "task_id (snd (run_sequential pv ?w1 ?st1 i rest)) = task_id ?st1"
      and a9: "ph_number (phases (snd (run_sequential pv ?w1 ?st1 i rest)) ! i) =
                 ph_number (phases ?st1 ! i)"
      by blast
    have b5: "\<forall>k < length (?x # new). ex_status ((?x # new) ! k) = ''failed''
                \<longrightarrow> Suc k = length (?x # new)"
    proof (intro allI impI)
      fix k assume k: "k < length (?x # new)" and f: "ex_status ((?x # new) ! k) = ''failed''"
      show "Suc k = length (?x # new)"
      proof (cases k)
        case 0
        with f False show ?thesis by simp
      next
        case (Suc k')
        with k f a5 show ?thesis by simp
      qed
    qed
    have b6: "length (?x # new) < length (a # rest)
                \<longrightarrow> ?x # new \<noteq> [] \<and> ex_status (last (?x # new)) = ''failed''"
      using a6 by auto
    have c1: "executions (phases (snd (run_sequential pv ?w1 ?st1 i rest)) ! i) =
                executions (phases st ! i) @ (?x # new)"
      by (simp add: a1 ex1)
    have c2: "emitted (fst (run_sequential pv ?w1 ?st1 i rest)) = emitted w @ (?evs @ evs)"
      by (simp add: a2 ev1)
    have c3: "map agent_type (?x # new) = take (length (?x # new)) (a # rest)"
      using a3 ty by simp
    have c4: "started_agents (?evs @ evs) = map agent_type (?x # new)"
      using a4 ty by simp
    have c7: "length (phases (snd (run_sequential pv ?w1 ?st1 i rest))) = length (phases st)"
      using a7 by simp
    have c8: "task_id (snd (run_sequential pv ?w1 ?st1 i rest)) = task_id st"
      using a8 by simp
    have c9: "ph_number (phases (snd (run_sequential pv ?w1 ?st1 i rest)) ! i) =
                ph_number (phases st ! i)"
      using a9 num1 by simp
    show ?thesis
      unfolding run using c1 c2 c3 c4 b5 b6 c7 c8 c9 by blast
  qed
qed


lemma phase_begin_simps [simp]:
  "task_id (phase_begin t i st) = task_id st"
  "status (phase_begin t i st) = status st"
  "mode_config (phase_begin t i st) = mode_config st"
  "tokens_used (phase_begin t i st) = tokens_used st"
  "estimated_cost (phase_begin t i st) = estimated_cost st"
  "length (phases (phase_begin t i st)) = length (phases st)"
  "i < length (phases st) \<Longrightarrow> executions (phases (phase_begin t i st) ! i) = executions (phases st ! i)"
  "i < length (phases st) \<Longrightarrow> agents (phases (phase_begin t i st) ! i) = agents (phases st ! i)"
  "i < length (phases st) \<Longrightarrow> parallel (phases (phase_begin t i st) ! i) = parallel (phases st ! i)"
  "i < length (phases st) \<Longrightarrow> ph_number (phases (phase_begin t i st) ! i) = ph_number (phases st ! i)"
  "k \<noteq> i \<Longrightarrow> phases (phase_begin t i st) ! k = phases st ! k"
  by (simp_all add: phase_begin_def)

lemma phase_end_simps [simp]:
  "task_id (phase_finally t i (phase_finish i st)) = task_id st"
  "status (phase_finally t i (phase_finish i st)) = status st"
  "tokens_used (phase_finally t i (phase_finish i st)) = tokens_used st"
  "estimated_cost (phase_finally t i (phase_finish i st)) = estimated_cost st"
  "length (phases (phase_finally t i (phase_finish i st))) = length (phases st)"
  "i < length (phases st) \<Longrightarrow>
     executions (phases (phase_finally t i (phase_finish i st)) ! i) = executions (phases st ! i)"
  "i < length (phases st) \<Longrightarrow>
     ph_number (phases (phase_finally t i (phase_finish i st)) ! i) = ph_number (phases st ! i)"
  "i < length (phases st) \<Longrightarrow>
     ph_status (phases (phase_finally t i (phase_finish i st)) ! i) =
       (if list_ex (\<lambda>x. ex_status x = ''failed'') (executions (phases st ! i))
        then Phase_FAILED else Phase_COMPLETED)"
  "k \<noteq> i \<Longrightarrow> phases (phase_finally t i (phase_finish i st)) ! k = phases st ! k"
  by (simp_all add: phase_finish_def phase_finally_def)

lemma execute_phase_sequential:
  assumes "i < length (phases st)"
    and "\<not> (parallel (phases st ! i) \<and> length (agents (phases st ! i)) > 1)"
  shows "execute_phase pv w st i =
     (let r = run_sequential pv
                (w\<lparr> now := now w + 1, emitted := emitted w @
                    [PhaseEv ''phase_started'' (task_id st) (ph_number (phases st ! i))] \<rparr>)
                (phase_begin (now w) i st) i (agents (phases st ! i));
          st4 = phase_finally (now (fst r)) i (phase_finish i (snd r))
      in ((fst r)\<lparr> now := now (fst r) + 1, emitted := emitted (fst r) @
             [PhaseEv ''phase_completed'' (task_id st4) (ph_number (phases st4 ! i))] \<rparr>, st4))"
  using assms
  by (auto simp: execute_phase_def Let_def split_def utcnow_def emit_event_def)

text \<open>
  C8. In a sequential phase (not both parallel and with more than one agent) the
  executions added by the phase runner are those of a prefix of the phase's agents, in
  declared order; the agent_started events emitted are those of exactly these agents; an
  execution that failed is the last one, so no agent after a failed one gets an execution
  or an agent_started event; and the runner stops before the end of the list only after
  a failed execution.
\<close>

theorem sequential_stop_on_failure:
  assumes "i < length (phases st)"
    and "\<not> (parallel (phases st ! i) \<and> length (agents (phases st ! i)) > 1)"
  shows "\<exists>new evs.
      executions (phases (snd (execute_phase pv w st i)) ! i) = executions (phases st ! i) @ new
    \<and> emitted (fst (execute_phase pv w st i)) = emitted w @ evs
    \<and> map agent_type new = take (length new) (agents (phases st ! i))
    \<and> started_agents evs = map agent_type new
    \<and> (\<forall>k < length new. ex_status (new ! k) = ''failed'' \<longrightarrow> Suc k = length new)
    \<and> (length new < length (agents (phases st ! i))
         \<longrightarrow> new \<noteq> [] \<and> ex_status (last new) = ''failed'')"
proof -
  let ?w2 = "w\<lparr> now := now w + 1, emitted := emitted w @
                [PhaseEv ''phase_started'' (task_id st) (ph_number (phases st ! i))] \<rparr>"
  let ?st1 = "phase_begin (now w) i st"
  let ?ags = "agents (phases st ! i)"
  let ?r = "run_sequential pv ?w2 ?st1 i ?ags"
  let ?st4 = "phase_finally (now (fst ?r)) i (phase_finish i (snd ?r))"
  have i1: "i < length (phases ?st1)" using assms(1) by simp
  from run_sequential_props [OF i1, of pv ?w2 ?ags] obtain new evs where
    a1: "executions (phases (snd ?r) ! i) = executions (phases ?st1 ! i) @ new"
    and a2: "emitted (fst ?r) = emitted ?w2 @ evs"
    and a3: "map agent_type new = take (length new) ?ags"
    and a4: "started_agents evs = map agent_type new"
    and a5: "\<forall>k < length new. ex_status (new ! k) = ''failed'' \<longrightarrow> Suc k = length new"
    and a6: "length new < length ?ags \<longrightarrow> new \<noteq> [] \<and> ex_status (last new) = ''failed''"
    and a7: "length (phases (snd ?r)) = length (phases ?st1)"
    by blast
  have i2: "i < length (phases (snd ?r))" using a7 assms(1) by simp
  have c1: "executions (phases (snd (execute_phase pv w st i)) ! i) =
              executions (phases st ! i) @ new"
    using assms(1) i2 a1 by (simp add: execute_phase_sequential [OF assms] Let_def)
  let ?evs = "PhaseEv ''phase_started'' (task_id st) (ph_number (phases st ! i)) # evs @
              [PhaseEv ''phase_completed'' (task_id ?st4) (ph_number (phases ?st4 ! i))]"
  have c2: "emitted (fst (execute_phase pv w st i)) = emitted w @ ?evs"
    using a2 by (simp add: execute_phase_sequential [OF assms] Let_def)
  have c4: "started_agents ?evs = map agent_type new"
    using a4 by simp
  show ?thesis
    using c1 c2 a3 c4 a5 a6 by blast
qed

theorem sequential_stop_on_failure_witness:
  "0 < length (phases (decompose_task cost_task))
   \<and> \<not> (parallel (phases (decompose_task cost_task) ! 0)
          \<and> length (agents (phases (decompose_task cost_task) ! 0)) > 1)
   \<and> agents (phases (decompose_task cost_task) ! 0) = [''implement'', ''test'']
   \<and> map ex_status (executions (phases (snd (execute_phase failing_providers world0
          (decompose_task cost_task) 0)) ! 0)) = [''failed'']
   \<and> map agent_type (executions (phases (snd (execute_phase failing_providers world0
          (decompose_task cost_task) 0)) ! 0)) = [''implement'']
   \<and> started_agents (emitted (fst (execute_phase failing_providers world0
          (decompose_task cost_task) 0))) = [''implement'']"
proof -
  let ?st = "decompose_task cost_task"
  let ?r = "execute_phase failing_providers world0 ?st 0"
  have h1: "0 < length (phases ?st)" by code_simp
  have h2: "\<not> (parallel (phases ?st ! 0) \<and> length (agents (phases ?st ! 0)) > 1)"
    by code_simp
  have ags: "agents (phases ?st ! 0) = [''implement'', ''test'']" by code_simp
  have old: "executions (phases ?st ! 0) = []" by code_simp
  have w: "emitted world0 = []" by (simp add: world0_def)
  have n: "length (executions (phases (snd ?r) ! 0)) = 1" by code_simp
  have s: "map ex_status (executions (phases (snd ?r) ! 0)) = [''failed'']" by code_simp
  from sequential_stop_on_failure [OF h1 h2, of failing_providers world0]
  obtain new evs where
    a1: "executions (phases (snd ?r) ! 0) = executions (phases ?st ! 0) @ new"
    and a2: "emitted (fst ?r) = emitted world0 @ evs"
    and a3: "map agent_type new = take (length new) (agents (phases ?st ! 0))"
    and a4: "started_agents evs = map agent_type new"
    by blast
  from a1 old n have ln: "length new = 1" by simp
  from a3 ln ags have ty: "map agent_type new = [''implement'']" by simp
  from a1 old ty have c5: "map agent_type (executions (phases (snd ?r) ! 0)) = [''implement'']"
    by simp
  from a2 a4 w ty have c6: "started_agents (emitted (fst ?r)) = [''implement'']" by simp
  show ?thesis using h1 h2 ags s c5 c6 by blast
qed


section \<open>The accounting invariant\<close>














lemma decompose_frame [simp]:
  "tokens_used (decompose_task st) = tokens_used st"
  "estimated_cost (decompose_task st) = estimated_cost st"
  "status (decompose_task st) = status st"
  by (simp_all add: decompose_task_def Let_def)




section \<open>The executor stays within the reachable states\<close>




lemma agent_start_snd:
  "fst (snd (agent_start pv w st i a)) = agent_begin (now w) a i st"
  "fst (snd (snd (agent_start pv w st i a))) = length (executions (phases st ! i))"
  by (simp_all add: agent_start_eq)












end
